theory Spec2Isabelle
  imports Complex_Main
begin

section \<open>Python text primitives used by \<open>ncov/parser/qc.py\<close>\<close>

text \<open>
  A text file is the list of lines that iterating over the open file yields: each line
  keeps its line terminator. Strings are \<open>char list\<close>; the tables handled here are ASCII
  text, and the character functions below are Python's on ASCII characters.
\<close>

abbreviation TAB :: char where "TAB \<equiv> CHR 0x09"
abbreviation NL :: char where "NL \<equiv> CHR 0x0A"

text \<open>
  The exceptions the module can raise. It defines no exception class of its own: what the
  specification calls a FormatError is an IndexError or a ValueError of a malformed row (and
  the UnboundLocalError of \<open>get_qc_data\<close> on a file without a data line), its
  EmptyInputError is the StatisticsError of \<open>statistics.mean\<close>, and its MissingKeyError is
  the KeyError of a dictionary lookup. OverflowError is raised by the conversion of a mean or
  a median to a \<open>float\<close>.
\<close>

datatype error =
  IndexError | ValueError | UnboundLocalError | StatisticsError | OverflowError | KeyError

text \<open>\<open>str.isspace\<close> on one ASCII character: codes 9 to 13 and 28 to 32.\<close>

definition whitespace :: string where
  "whitespace = [CHR 0x09, CHR 0x0A, CHR 0x0B, CHR 0x0C, CHR 0x0D,
                 CHR 0x1C, CHR 0x1D, CHR 0x1E, CHR 0x1F, CHR 0x20]"

definition is_space :: "char \<Rightarrow> bool" where
  "is_space c = (c \<in> set whitespace)"

definition ascii_lowercase :: string where
  "ascii_lowercase = ''abcdefghijklmnopqrstuvwxyz''"

definition ascii_uppercase :: string where
  "ascii_uppercase = ''ABCDEFGHIJKLMNOPQRSTUVWXYZ''"

definition upper_char :: "char \<Rightarrow> char" where
  "upper_char c = (case map_of (zip ascii_lowercase ascii_uppercase) c of Some u \<Rightarrow> u | None \<Rightarrow> c)"

definition lower_char :: "char \<Rightarrow> char" where
  "lower_char c = (case map_of (zip ascii_uppercase ascii_lowercase) c of Some l \<Rightarrow> l | None \<Rightarrow> c)"

definition upper :: "string \<Rightarrow> string" where
  "upper s = map upper_char s"

definition lower :: "string \<Rightarrow> string" where
  "lower s = map lower_char s"

definition lstrip :: "string \<Rightarrow> string" where
  "lstrip s = dropWhile is_space s"

definition rstrip :: "string \<Rightarrow> string" where
  "rstrip s = rev (dropWhile is_space (rev s))"

definition strip :: "string \<Rightarrow> string" where
  "strip s = rstrip (lstrip s)"

text \<open>\<open>s.split(sep)\<close> for a one-character separator: one more field than separators.\<close>

fun split :: "char \<Rightarrow> string \<Rightarrow> string list" where
  "split sep [] = [[]]"
| "split sep (c # cs) =
     (if c = sep then [] # split sep cs
      else (case split sep cs of [] \<Rightarrow> [[c]] | f # fs \<Rightarrow> (c # f) # fs))"

text \<open>\<open>sep.join(xs)\<close>, which \<open>write_qc_summary\<close> and \<open>write_qc_summary_header\<close> print.\<close>

fun join :: "string \<Rightarrow> string list \<Rightarrow> string" where
  "join sep [] = []"
| "join sep [x] = x"
| "join sep (x # y # ys) = x @ sep @ join sep (y # ys)"

text \<open>\<open>re.match("^" + p, s)\<close> for a literal pattern \<open>p\<close>: \<open>s\<close> begins with \<open>p\<close>.\<close>

definition re_match_literal :: "string \<Rightarrow> string \<Rightarrow> bool" where
  "re_match_literal p s = (take (length p) s = p)"

text \<open>\<open>re.search("[...]", s)\<close> for a character class: some character of \<open>s\<close> is in it.\<close>

definition re_search_class :: "string \<Rightarrow> string \<Rightarrow> bool" where
  "re_search_class cls s = list_ex (\<lambda>c. c \<in> set cls) s"

text \<open>\<open>data[i]\<close> for \<open>i \<ge> 0\<close>: IndexError out of range.\<close>

definition getitem :: "'a list \<Rightarrow> nat \<Rightarrow> error + 'a" where
  "getitem xs i = (if i < length xs then Inr (xs ! i) else Inl IndexError)"

section \<open>Variant classification\<close>

definition is_variant_n :: "string \<Rightarrow> bool" where
  "is_variant_n variant = re_search_class ''Nn'' (upper variant)"

definition is_variant_iupac :: "string \<Rightarrow> bool" where
  "is_variant_iupac variant = re_search_class ''RYSWKMBDHV'' (upper variant)"

definition is_indel :: "string \<Rightarrow> bool" where
  "is_indel variant = (length variant > 1)"

section \<open>\<open>get_total_variants\<close>\<close>

text \<open>
  The five counters of the loop; the fields carry the keys of the returned dictionary
  (\<open>counter\<close> is \<open>total_variants\<close>, \<open>counter_n\<close> is \<open>total_n\<close>, and so on).
\<close>

record variant_counts =
  total_variants :: int
  total_n :: int
  total_iupac :: int
  total_snv :: int
  total_indel :: int

definition variants_header :: string where
  "variants_header = ''REGION'' @ [TAB] @ ''POS'' @ [TAB] @ ''REF''"

definition counters_init :: variant_counts where
  "counters_init = \<lparr>total_variants = 0, total_n = 0, total_iupac = 0, total_snv = 0, total_indel = 0\<rparr>"

text \<open>Lines 76 to 79: the N and IUPAC counters.\<close>

definition count_n_iupac :: "string \<Rightarrow> variant_counts \<Rightarrow> variant_counts" where
  "count_n_iupac alt st =
     (if is_variant_n alt then st\<lparr>total_n := total_n st + 1\<rparr>
      else if is_variant_iupac alt then st\<lparr>total_iupac := total_iupac st + 1\<rparr>
      else st)"

text \<open>Lines 61 to 74 for a row whose \<open>data[3]\<close> is \<open>alt\<close>; \<open>None\<close> is the \<open>continue\<close> of line 74.\<close>

definition count_variant :: "bool \<Rightarrow> string \<Rightarrow> variant_counts \<Rightarrow> variant_counts option" where
  "count_variant indel alt st =
     (if indel then
        (if length alt > 1 then
           Some (st\<lparr>total_variants := total_variants st + 1, total_indel := total_indel st + 1\<rparr>)
         else if length alt = 1 then
           Some (st\<lparr>total_variants := total_variants st + 1, total_snv := total_snv st + 1\<rparr>)
         else Some st)
      else
        (if length alt = 1 then
           Some (st\<lparr>total_variants := total_variants st + 1, total_snv := total_snv st + 1\<rparr>)
         else None))"

text \<open>
  One iteration of the loop of lines 54 to 79. The line is split as it was read, without
  \<open>strip\<close>: when ALT is the last column of a row, \<open>data[3]\<close> keeps the line terminator.
\<close>

definition variants_row :: "bool \<Rightarrow> variant_counts \<Rightarrow> string \<Rightarrow> error + variant_counts" where
  "variants_row indel st line =
     (if re_match_literal variants_header line then Inr st
      else
        (case getitem (split TAB line) 3 of
           Inl e \<Rightarrow> Inl e
         | Inr alt \<Rightarrow>
             (case count_variant indel alt st of
                None \<Rightarrow> Inr st
              | Some st' \<Rightarrow> Inr (count_n_iupac alt st'))))"

fun variants_loop :: "bool \<Rightarrow> variant_counts \<Rightarrow> string list \<Rightarrow> error + variant_counts" where
  "variants_loop indel st [] = Inr st"
| "variants_loop indel st (line # rest) =
     (case variants_row indel st line of
        Inl e \<Rightarrow> Inl e
      | Inr st' \<Rightarrow> variants_loop indel st' rest)"

definition get_total_variants :: "string list \<Rightarrow> bool \<Rightarrow> error + variant_counts" where
  "get_total_variants file indel = variants_loop indel counters_init file"

section \<open>\<open>get_qc_data\<close>\<close>

record qc_fields =
  sample_name :: string
  pct_n_bases :: string
  pct_covered_bases :: string
  qc_pass :: string

text \<open>
  The loop of lines 23 to 28. The local variable \<open>data\<close> is unbound (\<open>None\<close>) until a line
  that is not a header has been read.
\<close>

fun qc_loop :: "string list option \<Rightarrow> string list \<Rightarrow> string list option" where
  "qc_loop data [] = data"
| "qc_loop data (line # rest) =
     (if re_match_literal ''sample_name'' line then qc_loop data rest
      else qc_loop (Some (split CHR '','' (strip line))) rest)"

text \<open>Line 30: the dictionary display reads \<open>data[0]\<close>, \<open>data[1]\<close>, \<open>data[2]\<close>, \<open>data[6]\<close> in this order.\<close>

definition qc_project :: "string list \<Rightarrow> error + qc_fields" where
  "qc_project data =
     (case getitem data 0 of Inl e \<Rightarrow> Inl e | Inr f0 \<Rightarrow>
     (case getitem data 1 of Inl e \<Rightarrow> Inl e | Inr f1 \<Rightarrow>
     (case getitem data 2 of Inl e \<Rightarrow> Inl e | Inr f2 \<Rightarrow>
     (case getitem data 6 of Inl e \<Rightarrow> Inl e | Inr f6 \<Rightarrow>
        Inr \<lparr>sample_name = f0, pct_n_bases = f1, pct_covered_bases = f2, qc_pass = f6\<rparr>))))"

definition get_qc_data :: "string list \<Rightarrow> error + qc_fields" where
  "get_qc_data file =
     (case qc_loop None file of
        None \<Rightarrow> Inl UnboundLocalError
      | Some data \<Rightarrow> qc_project data)"

section \<open>\<open>import_ct_data\<close>\<close>

definition ct_header :: string where
  "ct_header = ''sample'' @ [TAB] @ ''ct''"

text \<open>
  The loop of lines 101 to 107. In \<open>data[tmp_data[0]] = tmp_data[1]\<close> the right-hand side is
  evaluated first.
\<close>

fun ct_loop :: "(string \<rightharpoonup> string) \<Rightarrow> string list \<Rightarrow> error + (string \<rightharpoonup> string)" where
  "ct_loop data [] = Inr data"
| "ct_loop data (line # rest) =
     (if re_match_literal ct_header (lower line) then ct_loop data rest
      else
        (let tmp_data = split TAB (strip line) in
         (case getitem tmp_data 1 of Inl e \<Rightarrow> Inl e | Inr v \<Rightarrow>
         (case getitem tmp_data 0 of Inl e \<Rightarrow> Inl e | Inr k \<Rightarrow>
           ct_loop (data(k \<mapsto> v)) rest))))"

definition import_ct_data :: "string list \<Rightarrow> error + (string \<rightharpoonup> string)" where
  "import_ct_data file = ct_loop Map.empty file"

section \<open>\<open>get_coverage_stats\<close>\<close>

text \<open>
  \<open>int(s)\<close> for an ASCII string. The whitespace that \<open>int\<close> drops at both ends is that of the
  C locale (codes 9 to 13 and 32), a smaller set than that of \<open>str.strip\<close>. What remains is an
  optional sign and decimal digits, where single underscores may stand between digits;
  anything else is a ValueError, and so is a literal of more than 4300 digits (the default
  limit of the interpreter).
\<close>

definition int_whitespace :: string where
  "int_whitespace = [CHR 0x09, CHR 0x0A, CHR 0x0B, CHR 0x0C, CHR 0x0D, CHR 0x20]"

definition int_strip :: "string \<Rightarrow> string" where
  "int_strip s =
     rev (dropWhile (\<lambda>c. c \<in> set int_whitespace)
       (rev (dropWhile (\<lambda>c. c \<in> set int_whitespace) s)))"

definition digits :: string where
  "digits = ''0123456789''"

definition digit_val :: "char \<Rightarrow> int" where
  "digit_val c = (case map_of (zip digits [0, 1, 2, 3, 4, 5, 6, 7, 8, 9]) c of Some d \<Rightarrow> d | None \<Rightarrow> 0)"

fun int_literal_ok :: "string \<Rightarrow> bool" where
  "int_literal_ok [] = False"
| "int_literal_ok [c] = (c \<in> set digits)"
| "int_literal_ok (c # d # cs) =
     (c \<in> set digits \<and> (if d = CHR ''_'' then int_literal_ok cs else int_literal_ok (d # cs)))"

definition max_str_digits :: nat where
  "max_str_digits = 4300"

definition int_literal :: "string \<Rightarrow> error + int" where
  "int_literal s =
     (let ds = filter (\<lambda>c. c \<noteq> CHR ''_'') s in
      if \<not> int_literal_ok s then Inl ValueError
      else if length ds > max_str_digits then Inl ValueError
      else Inr (foldl (\<lambda>acc c. 10 * acc + digit_val c) 0 ds))"

definition py_int :: "string \<Rightarrow> error + int" where
  "py_int s =
     (case int_strip s of
        [] \<Rightarrow> Inl ValueError
      | c # cs \<Rightarrow>
          (if c = CHR ''-'' then (case int_literal cs of Inl e \<Rightarrow> Inl e | Inr v \<Rightarrow> Inr (- v))
           else if c = CHR ''+'' then int_literal cs
           else int_literal (c # cs)))"

text \<open>
  A Python number is an \<open>int\<close> or a \<open>float\<close>; a \<open>float\<close> is kept as the rational that the
  double stands for. \<open>float_round\<close> is the conversion of an exact quotient to the nearest
  double, ties to even, as the true division of two \<open>int\<close>s computes it: below \<open>2^-1022\<close> the
  spacing of doubles stays \<open>2^-1074\<close>, and a result of \<open>2^1024\<close> or more is an OverflowError.
\<close>

datatype py_number = PyInt int | PyFloat rat

function bit_length :: "int \<Rightarrow> nat" where
  "bit_length n = (if n \<le> 0 then 0 else Suc (bit_length (n div 2)))"
  by pat_completeness auto
termination
  by (relation "measure nat") auto

declare bit_length.simps [simp del]

definition pow2 :: "int \<Rightarrow> rat" where
  "pow2 k = (if 0 \<le> k then 2 ^ nat k else 1 / 2 ^ nat (- k))"

text \<open>The integer \<open>e\<close> with \<open>2^e \<le> x < 2^(e+1)\<close>, for a positive \<open>x\<close>.\<close>

definition floor_log2 :: "rat \<Rightarrow> int" where
  "floor_log2 x =
     (let (p, q) = quotient_of x;
          e = int (bit_length p) - int (bit_length q)
      in if pow2 e \<le> x then e else e - 1)"

definition round_half_even :: "rat \<Rightarrow> int" where
  "round_half_even x =
     (let f = \<lfloor>x\<rfloor>; d = x - of_int f in
      if d < 1 / 2 then f
      else if 1 / 2 < d then f + 1
      else if even f then f else f + 1)"

definition float_round :: "rat \<Rightarrow> error + rat" where
  "float_round x =
     (if x = 0 then Inr 0
      else
        (let a = \<bar>x\<bar>;
             ulp = pow2 (max (floor_log2 a) (- 1022) - 52);
             y = of_int (round_half_even (a / ulp)) * ulp
         in if pow2 1024 \<le> y then Inl OverflowError
            else Inr (if x < 0 then - y else y)))"

text \<open>\<open>a / b\<close> for two \<open>int\<close>s with \<open>b\<close> not zero.\<close>

definition int_true_div :: "int \<Rightarrow> int \<Rightarrow> error + py_number" where
  "int_true_div a b =
     (case float_round (of_int a / of_int b) of Inl e \<Rightarrow> Inl e | Inr y \<Rightarrow> Inr (PyFloat y))"

text \<open>
  \<open>statistics.mean\<close> on a list of \<open>int\<close>s: StatisticsError on an empty list; otherwise the
  exact quotient of the sum by the length, returned as an \<open>int\<close> when it is whole and
  converted to a \<open>float\<close> otherwise.
\<close>

definition statistics_mean :: "int list \<Rightarrow> error + py_number" where
  "statistics_mean xs =
     (if length xs < 1 then Inl StatisticsError
      else if sum_list xs mod int (length xs) = 0 then Inr (PyInt (sum_list xs div int (length xs)))
      else int_true_div (sum_list xs) (int (length xs)))"

text \<open>
  \<open>statistics.median\<close> on a list of \<open>int\<close>s: StatisticsError on an empty list; the middle
  element of the sorted list when the length is odd; \<open>(data[i - 1] + data[i]) / 2\<close>, a
  \<open>float\<close>, when it is even.
\<close>

definition statistics_median :: "int list \<Rightarrow> error + py_number" where
  "statistics_median xs =
     (let ys = sort xs; n = length ys in
      if n = 0 then Inl StatisticsError
      else if n mod 2 = 1 then Inr (PyInt (ys ! (n div 2)))
      else int_true_div (ys ! (n div 2 - 1) + ys ! (n div 2)) 2)"

record coverage_stats =
  mean :: py_number
  median :: py_number

definition coverage_header :: string where
  "coverage_header = ''reference_name'' @ [TAB] @ ''start'' @ [TAB] @ ''end''"

text \<open>The loop of lines 172 to 178, collecting the list \<open>depth\<close>.\<close>

fun depth_loop :: "int list \<Rightarrow> string list \<Rightarrow> error + int list" where
  "depth_loop depth [] = Inr depth"
| "depth_loop depth (line # rest) =
     (if re_match_literal coverage_header line then depth_loop depth rest
      else
        (case getitem (split TAB (strip line)) 7 of Inl e \<Rightarrow> Inl e | Inr field \<Rightarrow>
        (case py_int field of Inl e \<Rightarrow> Inl e | Inr d \<Rightarrow>
           depth_loop (depth @ [d]) rest)))"

definition get_coverage_stats :: "string list \<Rightarrow> error + coverage_stats" where
  "get_coverage_stats file =
     (case depth_loop [] file of Inl e \<Rightarrow> Inl e | Inr depth \<Rightarrow>
     (case statistics_mean depth of Inl e \<Rightarrow> Inl e | Inr mean_depth \<Rightarrow>
     (case statistics_median depth of Inl e \<Rightarrow> Inl e | Inr median_depth \<Rightarrow>
        Inr \<lparr>mean = mean_depth, median = median_depth\<rparr>)))"

section \<open>\<open>create_qc_summary_line\<close>\<close>

text \<open>
  The summary dictionary is the union of the three dictionaries, whose keys are disjoint,
  and the key \<open>ct\<close>; it is kept here as the three records side by side.
\<close>

record summary =
  variants :: variant_counts
  qc :: qc_fields
  coverage :: coverage_stats
  ct :: string

definition create_qc_summary_line ::
  "string list \<Rightarrow> string list \<Rightarrow> string list \<Rightarrow> string list \<Rightarrow> bool \<Rightarrow> error + summary" where
  "create_qc_summary_line var_file qc_file cov_file meta_file indel =
     (case get_total_variants var_file indel of Inl e \<Rightarrow> Inl e | Inr v \<Rightarrow>
     (case get_qc_data qc_file of Inl e \<Rightarrow> Inl e | Inr q \<Rightarrow>
     (case get_coverage_stats cov_file of Inl e \<Rightarrow> Inl e | Inr c \<Rightarrow>
     (case import_ct_data meta_file of Inl e \<Rightarrow> Inl e | Inr meta_data \<Rightarrow>
     (case meta_data (sample_name q) of
        None \<Rightarrow> Inl KeyError
      | Some v_ct \<Rightarrow> Inr \<lparr>variants = v, qc = q, coverage = c, ct = v_ct\<rparr>)))))"

section \<open>\<open>collect_qc_summary_data\<close>\<close>

definition summary_header :: string where
  "summary_header = ''sample_name'' @ [TAB] @ ''pct_n_bases'' @ [TAB] @ ''pct_covered_bases''"

text \<open>The inner loop of lines 304 to 308 over the lines of one file.\<close>

fun collect_lines :: "string list \<Rightarrow> string list \<Rightarrow> string list" where
  "collect_lines data [] = data"
| "collect_lines data (line # rest) =
     (if re_match_literal summary_header line then collect_lines data rest
      else collect_lines (data @ [rstrip line]) rest)"

text \<open>
  The outer loop of line 302. The argument is the contents of the files that \<open>glob.glob\<close>
  returned, in the order in which it returned them.
\<close>

fun collect_files :: "string list \<Rightarrow> string list list \<Rightarrow> string list" where
  "collect_files data [] = data"
| "collect_files data (file # files) = collect_files (collect_lines data file) files"

definition collect_qc_summary_data :: "string list list \<Rightarrow> string list" where
  "collect_qc_summary_data files = collect_files [] files"

section \<open>Rows and tables used in the examples\<close>

text \<open>
  The \<open>data[3]\<close> of a row that reaches the classification of lines 76 to 79: every data row
  when indels are included, the rows whose \<open>data[3]\<close> has one character otherwise. Such a row
  is an N row when \<open>data[3]\<close> contains \<open>N\<close> or \<open>n\<close>, and an IUPAC row when it contains neither
  but one of the ten ambiguity letters in either case. (A line terminator kept at the end of
  \<open>data[3]\<close> is none of these letters.)
\<close>

definition classified_alt :: "bool \<Rightarrow> string \<Rightarrow> string option" where
  "classified_alt indel line =
     (if re_match_literal variants_header line then None
      else (case getitem (split TAB line) 3 of
              Inl e \<Rightarrow> None
            | Inr alt \<Rightarrow> if indel \<or> length alt = 1 then Some alt else None))"

definition n_row :: "bool \<Rightarrow> string \<Rightarrow> bool" where
  "n_row indel line =
     (case classified_alt indel line of
        None \<Rightarrow> False
      | Some alt \<Rightarrow> CHR ''N'' \<in> set alt \<or> CHR ''n'' \<in> set alt)"

definition iupac_row :: "bool \<Rightarrow> string \<Rightarrow> bool" where
  "iupac_row indel line =
     (case classified_alt indel line of
        None \<Rightarrow> False
      | Some alt \<Rightarrow> CHR ''N'' \<notin> set alt \<and> CHR ''n'' \<notin> set alt
                    \<and> list_ex (\<lambda>c. c \<in> set ''RYSWKMBDHVryswkmbdhv'') alt)"

text \<open>A data row of the variant table whose \<open>data[3]\<close> has exactly one character.\<close>

definition single_char_alt_row :: "string \<Rightarrow> bool" where
  "single_char_alt_row line =
     (if re_match_literal variants_header line then False
      else (case getitem (split TAB line) 3 of Inl e \<Rightarrow> False | Inr alt \<Rightarrow> length alt = 1))"

text \<open>A line of a tab-separated or comma-separated table, with its line terminator.\<close>

definition tsv_line :: "string list \<Rightarrow> string" where
  "tsv_line cols = join [TAB] cols @ [NL]"

definition csv_line :: "string list \<Rightarrow> string" where
  "csv_line cols = join '','' cols @ [NL]"

text \<open>A variant table: ALT is \<open>A\<close>, \<open>N\<close> and \<open>AT\<close>.\<close>

definition example_variants :: "string list" where
  "example_variants =
     [tsv_line [''REGION'', ''POS'', ''REF'', ''ALT'', ''REF_DP''],
      tsv_line [''MN908947.3'', ''241'', ''C'', ''A'', ''0''],
      tsv_line [''MN908947.3'', ''3037'', ''C'', ''N'', ''2''],
      tsv_line [''MN908947.3'', ''11287'', ''G'', ''AT'', ''5'']]"

text \<open>A variant table with ambiguous calls: ALT is \<open>A\<close>, \<open>N\<close>, \<open>nR\<close>, \<open>y\<close> and \<open>AT\<close>.\<close>

definition example_variants_ambiguous :: "string list" where
  "example_variants_ambiguous =
     [tsv_line [''REGION'', ''POS'', ''REF'', ''ALT'', ''REF_DP''],
      tsv_line [''MN908947.3'', ''241'', ''C'', ''A'', ''0''],
      tsv_line [''MN908947.3'', ''3037'', ''C'', ''N'', ''2''],
      tsv_line [''MN908947.3'', ''8782'', ''C'', ''nR'', ''1''],
      tsv_line [''MN908947.3'', ''9477'', ''T'', ''y'', ''4''],
      tsv_line [''MN908947.3'', ''11287'', ''G'', ''AT'', ''5'']]"

text \<open>A variant table of four columns, so that ALT is the last column of its one data row.\<close>

definition example_variants_alt_last :: "string list" where
  "example_variants_alt_last =
     [tsv_line [''REGION'', ''POS'', ''REF'', ''ALT''],
      tsv_line [''MN908947.3'', ''241'', ''C'', ''A'']]"

text \<open>A variant table whose second data row stops after REF.\<close>

definition example_variants_short :: "string list" where
  "example_variants_short =
     [tsv_line [''REGION'', ''POS'', ''REF'', ''ALT'', ''REF_DP''],
      tsv_line [''MN908947.3'', ''241'', ''C'', ''T'', ''0''],
      tsv_line [''MN908947.3'', ''3037'', ''C'']]"

definition example_qc :: "string list" where
  "example_qc =
     [csv_line [''sample_name'', ''pct_N_bases'', ''pct_covered_bases'', ''longest_no_N_run'',
                ''fasta'', ''bam'', ''qc_pass''],
      csv_line [''s1'', ''0.50'', ''99.50'', ''29000'', ''s1.fa'', ''s1.bam'', ''TRUE'']]"

text \<open>QC files with two data lines, one of which has three fields only, and with one short data line.\<close>

definition example_qc_two :: "string list" where
  "example_qc_two =
     [csv_line [''sample_name'', ''pct_N_bases'', ''pct_covered_bases'', ''longest_no_N_run'',
                ''fasta'', ''bam'', ''qc_pass''],
      csv_line [''s1'', ''0.50'', ''99.50''],
      csv_line [''s2'', ''7.25'', ''92.75'', ''14000'', ''s2.fa'', ''s2.bam'', ''FALSE'']]"

definition example_qc_short :: "string list" where
  "example_qc_short =
     [csv_line [''sample_name'', ''pct_N_bases'', ''pct_covered_bases'', ''longest_no_N_run'',
                ''fasta'', ''bam'', ''qc_pass''],
      csv_line [''s1'', ''0.50'', ''99.50'']]"

definition example_qc_last_short :: "string list" where
  "example_qc_last_short =
     [csv_line [''sample_name'', ''pct_N_bases'', ''pct_covered_bases'', ''longest_no_N_run'',
                ''fasta'', ''bam'', ''qc_pass''],
      csv_line [''s2'', ''7.25'', ''92.75'', ''14000'', ''s2.fa'', ''s2.bam'', ''FALSE''],
      csv_line [''s1'', ''0.50'', ''99.50'']]"

definition example_qc_header_only :: "string list" where
  "example_qc_header_only =
     [csv_line [''sample_name'', ''pct_N_bases'', ''pct_covered_bases'', ''longest_no_N_run'',
                ''fasta'', ''bam'', ''qc_pass'']]"

definition example_coverage :: "string list" where
  "example_coverage =
     [tsv_line [''reference_name'', ''start'', ''end'', ''amplicon_id'', ''pool'', ''strand'',
                ''position'', ''depth''],
      tsv_line [''MN908947.3'', ''30'', ''410'', ''1'', ''1'', ''+'', ''1'', ''4''],
      tsv_line [''MN908947.3'', ''30'', ''410'', ''1'', ''1'', ''+'', ''2'', ''1''],
      tsv_line [''MN908947.3'', ''30'', ''410'', ''1'', ''1'', ''+'', ''3'', ''3''],
      tsv_line [''MN908947.3'', ''30'', ''410'', ''1'', ''1'', ''+'', ''4'', ''2'']]"

definition example_coverage_header_only :: "string list" where
  "example_coverage_header_only =
     [tsv_line [''reference_name'', ''start'', ''end'', ''amplicon_id'', ''pool'', ''strand'',
                ''position'', ''depth'']]"

text \<open>Metadata tables: one without sample \<open>s1\<close>, one naming it twice, one ending in an empty line.\<close>

definition example_meta_other :: "string list" where
  "example_meta_other = [tsv_line [''sample'', ''ct''], tsv_line [''s2'', ''20.5'']]"

definition example_meta_twice :: "string list" where
  "example_meta_twice =
     [tsv_line [''Sample'', ''Ct''], tsv_line [''s1'', ''20.5''], tsv_line [''s2'', ''25.0''],
      tsv_line [''s1'', ''30.1'']]"

definition example_meta_blank :: "string list" where
  "example_meta_blank =
     [tsv_line [''sample'', ''ct''], tsv_line [''s1'', ''20.5''], tsv_line [''s1'', ''30.1''], [NL]]"

text \<open>Two summary files, each the header that \<open>write_qc_summary_header\<close> prints and two records.\<close>

definition qc_summary_header_line :: string where
  "qc_summary_header_line =
     tsv_line [''sample_name'', ''pct_n_bases'', ''pct_covered_bases'', ''total_variants'',
               ''total_snv'', ''total_indel'', ''total_n'', ''total_iupac'', ''mean_depth'',
               ''median_depth'', ''ct'', ''qc_pass'']"

definition example_summary_a :: "string list" where
  "example_summary_a =
     [qc_summary_header_line,
      tsv_line [''s1'', ''0.50'', ''99.50'', ''3'', ''2'', ''1'', ''1'', ''0'', ''2.5'', ''2.5'', ''20.5'', ''TRUE''],
      tsv_line [''s2'', ''7.25'', ''92.75'', ''0'', ''0'', ''0'', ''0'', ''0'', ''5'', ''5'', ''25.0'', ''FALSE'']]"

definition example_summary_b :: "string list" where
  "example_summary_b =
     [qc_summary_header_line,
      tsv_line [''s3'', ''1.00'', ''99.00'', ''1'', ''1'', ''0'', ''0'', ''1'', ''7'', ''7'', ''18.0'', ''TRUE''],
      tsv_line [''s4'', ''2.00'', ''98.00'', ''2'', ''1'', ''1'', ''0'', ''0'', ''9'', ''9'', ''31.2'', ''TRUE'']]"

section \<open>Facts about the classifiers\<close>

lemma upper_char_eq_N: "upper_char c = CHR ''N'' \<longleftrightarrow> c = CHR ''N'' \<or> c = CHR ''n''"
  by (simp add: upper_char_def ascii_lowercase_def ascii_uppercase_def)

lemma upper_char_neq_n: "upper_char c \<noteq> CHR ''n''"
  by (simp add: upper_char_def ascii_lowercase_def ascii_uppercase_def)

lemma upper_char_iupac:
  "upper_char c \<in> set ''RYSWKMBDHV'' \<longleftrightarrow> c \<in> set ''RYSWKMBDHVryswkmbdhv''"
  by (simp add: upper_char_def ascii_lowercase_def ascii_uppercase_def)

lemma is_variant_n_iff: "is_variant_n v \<longleftrightarrow> CHR ''N'' \<in> set v \<or> CHR ''n'' \<in> set v"
proof -
  have "is_variant_n v \<longleftrightarrow> (\<exists>c\<in>set v. upper_char c = CHR ''N'' \<or> upper_char c = CHR ''n'')"
    by (auto simp: is_variant_n_def re_search_class_def upper_def list_ex_iff)
  also have "\<dots> \<longleftrightarrow> (\<exists>c\<in>set v. c = CHR ''N'' \<or> c = CHR ''n'')"
    by (simp add: upper_char_eq_N upper_char_neq_n)
  also have "\<dots> \<longleftrightarrow> CHR ''N'' \<in> set v \<or> CHR ''n'' \<in> set v"
    by auto
  finally show ?thesis .
qed

lemma is_variant_iupac_iff:
  "is_variant_iupac v \<longleftrightarrow> set v \<inter> set ''RYSWKMBDHVryswkmbdhv'' \<noteq> {}"
proof -
  have "is_variant_iupac v \<longleftrightarrow> (\<exists>c\<in>set v. upper_char c \<in> set ''RYSWKMBDHV'')"
    by (auto simp: is_variant_iupac_def re_search_class_def upper_def list_ex_iff)
  also have "\<dots> \<longleftrightarrow> (\<exists>c\<in>set v. c \<in> set ''RYSWKMBDHVryswkmbdhv'')"
    by (simp only: upper_char_iupac)
  also have "\<dots> \<longleftrightarrow> set v \<inter> set ''RYSWKMBDHVryswkmbdhv'' \<noteq> {}"
    by blast
  finally show ?thesis .
qed

lemma count_n_iupac_frame:
  "total_variants (count_n_iupac alt st) = total_variants st"
  "total_snv (count_n_iupac alt st) = total_snv st"
  "total_indel (count_n_iupac alt st) = total_indel st"
  by (simp_all add: count_n_iupac_def)

lemma count_n_iupac_n:
  "total_n (count_n_iupac alt st) =
     total_n st + (if CHR ''N'' \<in> set alt \<or> CHR ''n'' \<in> set alt then 1 else 0)"
  by (simp add: count_n_iupac_def is_variant_n_iff)

lemma count_n_iupac_iupac:
  "total_iupac (count_n_iupac alt st) =
     total_iupac st + (if CHR ''N'' \<notin> set alt \<and> CHR ''n'' \<notin> set alt
                          \<and> set alt \<inter> set ''RYSWKMBDHVryswkmbdhv'' \<noteq> {} then 1 else 0)"
  unfolding count_n_iupac_def is_variant_n_iff is_variant_iupac_iff by simp

lemma count_variant_frame:
  "count_variant indel alt st = Some st1 \<Longrightarrow> total_n st1 = total_n st \<and> total_iupac st1 = total_iupac st"
  by (auto simp: count_variant_def split: if_splits)

section \<open>Facts about \<open>get_total_variants\<close>\<close>

lemma variants_row_data:
  assumes "\<not> re_match_literal variants_header line" and "getitem (split TAB line) 3 = Inr alt"
  shows "variants_row indel st line =
           (case count_variant indel alt st of None \<Rightarrow> Inr st | Some st' \<Rightarrow> Inr (count_n_iupac alt st'))"
  using assms by (simp add: variants_row_def)

lemma variants_row_consistent:
  assumes "total_variants st = total_snv st + total_indel st"
    and "variants_row indel st line = Inr st'"
  shows "total_variants st' = total_snv st' + total_indel st'"
  using assms
  by (auto simp: variants_row_def count_variant_def count_n_iupac_frame
           split: if_splits sum.splits option.splits)

lemma variants_loop_consistent:
  "total_variants st = total_snv st + total_indel st \<Longrightarrow> variants_loop indel st file = Inr r
     \<Longrightarrow> total_variants r = total_snv r + total_indel r"
proof (induction "file" arbitrary: st)
  case Nil
  then show ?case by simp
next
  case (Cons line rest)
  from Cons.prems(2) obtain st' where row: "variants_row indel st line = Inr st'"
    and loop: "variants_loop indel st' rest = Inr r"
    by (auto split: sum.splits)
  from Cons.prems(1) row have "total_variants st' = total_snv st' + total_indel st'"
    by (rule variants_row_consistent)
  then show ?case using loop by (rule Cons.IH)
qed

text \<open>The only exception a row can raise is the IndexError of \<open>data[3]\<close>.\<close>

lemma variants_row_error: "variants_row indel st line = Inl e \<Longrightarrow> e = IndexError"
  by (auto simp: variants_row_def getitem_def split: if_splits sum.splits option.splits)

lemma variants_row_short:
  assumes "\<not> re_match_literal variants_header line" and "length (split TAB line) < 4"
  shows "variants_row indel st line = Inl IndexError"
  using assms by (simp add: variants_row_def getitem_def)

lemma variants_loop_short:
  assumes "line \<in> set file" and "\<not> re_match_literal variants_header line"
    and "length (split TAB line) < 4"
  shows "variants_loop indel st file = Inl IndexError"
  using assms(1)
proof (induction "file" arbitrary: st)
  case Nil
  then show ?case by simp
next
  case (Cons l rest)
  show ?case
  proof (cases "variants_row indel st l")
    case (Inl e)
    then have "e = IndexError" by (rule variants_row_error)
    with Inl show ?thesis by simp
  next
    case (Inr st')
    with assms(2,3) have "l \<noteq> line"
      by (auto simp: variants_row_short)
    with Cons.prems have "line \<in> set rest" by simp
    then have "variants_loop indel st' rest = Inl IndexError" by (rule Cons.IH)
    with Inr show ?thesis by simp
  qed
qed

lemma variants_row_no_indel:
  assumes "variants_row False st line = Inr st'"
  shows "total_indel st' = total_indel st
       \<and> total_variants st' = total_variants st + (if single_char_alt_row line then 1 else 0)
       \<and> total_snv st' = total_snv st + (if single_char_alt_row line then 1 else 0)"
  using assms
  by (auto simp: variants_row_def count_variant_def count_n_iupac_frame single_char_alt_row_def
           split: if_splits sum.splits option.splits)

lemma variants_loop_no_indel:
  "variants_loop False st file = Inr r \<Longrightarrow>
     total_indel r = total_indel st
   \<and> total_variants r = total_variants st + int (length (filter single_char_alt_row file))
   \<and> total_snv r = total_snv st + int (length (filter single_char_alt_row file))"
proof (induction "file" arbitrary: st)
  case Nil
  then show ?case by simp
next
  case (Cons line rest)
  from Cons.prems obtain st' where row: "variants_row False st line = Inr st'"
    and loop: "variants_loop False st' rest = Inr r"
    by (auto split: sum.splits)
  from variants_row_no_indel [OF row] Cons.IH [OF loop] show ?case by simp
qed

lemma is_variant_iupac_list_ex:
  "is_variant_iupac v \<longleftrightarrow> list_ex (\<lambda>c. c \<in> set ''RYSWKMBDHVryswkmbdhv'') v"
  unfolding is_variant_iupac_iff list_ex_iff by blast

lemma variants_row_n_iupac:
  assumes "variants_row indel st line = Inr st'"
  shows "total_n st' = total_n st + (if n_row indel line then 1 else 0)
       \<and> total_iupac st' = total_iupac st + (if iupac_row indel line then 1 else 0)
       \<and> (total_n st' - total_n st) + (total_iupac st' - total_iupac st)
            \<le> total_variants st' - total_variants st"
proof (cases "re_match_literal variants_header line")
  case True
  with assms have "st' = st" by (simp add: variants_row_def)
  with True show ?thesis by (simp add: n_row_def iupac_row_def classified_alt_def)
next
  case False
  with assms obtain alt where alt: "getitem (split TAB line) 3 = Inr alt"
    by (auto simp: variants_row_def split: sum.splits)
  show ?thesis
  proof (cases "indel \<or> length alt = 1")
    case True
    with False alt have cl: "classified_alt indel line = Some alt"
      by (simp add: classified_alt_def)
    from True have "count_variant indel alt st \<noteq> None"
      by (auto simp: count_variant_def)
    then obtain st1 where st1: "count_variant indel alt st = Some st1"
      by blast
    then have frame: "total_n st1 = total_n st" "total_iupac st1 = total_iupac st"
      by (simp_all add: count_variant_frame)
    from st1 have tv: "total_variants st1 = total_variants st + (if alt = [] then 0 else 1)"
      by (cases alt) (auto simp: count_variant_def split: if_splits)
    from assms False alt st1 have st': "st' = count_n_iupac alt st1"
      by (simp add: variants_row_data)
    have n: "total_n st' = total_n st + (if n_row indel line then 1 else 0)"
      unfolding st' count_n_iupac_n frame n_row_def cl by simp
    have i: "total_iupac st' = total_iupac st + (if iupac_row indel line then 1 else 0)"
      unfolding st' iupac_row_def cl
      by (simp add: count_n_iupac_def is_variant_n_iff is_variant_iupac_list_ex frame)
    have "\<not> n_row indel line \<and> \<not> iupac_row indel line" if "alt = []"
      using that by (simp add: n_row_def iupac_row_def cl)
    moreover have "\<not> (n_row indel line \<and> iupac_row indel line)"
      unfolding n_row_def iupac_row_def cl by auto
    moreover have "total_variants st' = total_variants st1"
      unfolding st' by (simp add: count_n_iupac_frame)
    ultimately have "(total_n st' - total_n st) + (total_iupac st' - total_iupac st)
            \<le> total_variants st' - total_variants st"
      using n i tv by auto
    with n i show ?thesis by simp
  next
    case nc: False
    with False alt have cl: "classified_alt indel line = None"
      by (simp add: classified_alt_def)
    from nc have "count_variant indel alt st = None"
      by (simp add: count_variant_def)
    with assms False alt have "st' = st"
      by (simp add: variants_row_data)
    with cl show ?thesis by (simp add: n_row_def iupac_row_def)
  qed
qed

lemma variants_loop_n_iupac:
  "variants_loop indel st file = Inr r \<Longrightarrow>
     total_n r = total_n st + int (length (filter (n_row indel) file))
   \<and> total_iupac r = total_iupac st + int (length (filter (iupac_row indel) file))
   \<and> (total_n r - total_n st) + (total_iupac r - total_iupac st)
        \<le> total_variants r - total_variants st"
proof (induction "file" arbitrary: st)
  case Nil
  then show ?case by simp
next
  case (Cons line rest)
  from Cons.prems obtain st' where row: "variants_row indel st line = Inr st'"
    and loop: "variants_loop indel st' rest = Inr r"
    by (auto split: sum.splits)
  from variants_row_n_iupac [OF row] Cons.IH [OF loop] show ?case by simp
qed

section \<open>Facts about the other readers\<close>

lemma depth_loop_no_data:
  "filter (\<lambda>l. \<not> re_match_literal coverage_header l) file = [] \<Longrightarrow> depth_loop depth file = Inr depth"
  by (induction "file") (auto split: if_splits)

text \<open>After the loop, \<open>data\<close> holds the fields of the last line that is not a header.\<close>

lemma qc_loop_last:
  "qc_loop data file =
     (if filter (\<lambda>l. \<not> re_match_literal ''sample_name'' l) file = [] then data
      else Some (split CHR '','' (strip (last (filter (\<lambda>l. \<not> re_match_literal ''sample_name'' l) file)))))"
  by (induction "file" arbitrary: data) auto

lemma qc_project_short: "length data < 7 \<Longrightarrow> qc_project data = Inl IndexError"
  by (auto simp: qc_project_def getitem_def split: sum.splits)

lemma qc_project_long:
  "7 \<le> length data \<Longrightarrow>
     qc_project data = Inr \<lparr>sample_name = data ! 0, pct_n_bases = data ! 1,
                             pct_covered_bases = data ! 2, qc_pass = data ! 6\<rparr>"
  by (auto simp: qc_project_def getitem_def)

lemma ct_loop_ok:
  assumes "\<forall>line\<in>set file. \<not> re_match_literal ct_header (lower line) \<longrightarrow> 2 \<le> length (split TAB (strip line))"
  shows "\<exists>m. ct_loop data file = Inr m"
  using assms
proof (induction "file" arbitrary: data)
  case Nil
  then show ?case by simp
next
  case (Cons line rest)
  then show ?case by (auto simp: getitem_def Let_def)
qed

lemma ct_loop_lookup:
  assumes "ct_loop data file = Inr m"
  shows "m k =
     (if filter (\<lambda>l. \<not> re_match_literal ct_header (lower l) \<and> split TAB (strip l) ! 0 = k) file = []
      then data k
      else Some (split TAB (strip (last
             (filter (\<lambda>l. \<not> re_match_literal ct_header (lower l) \<and> split TAB (strip l) ! 0 = k) file))) ! 1))"
  using assms
proof (induction "file" arbitrary: data)
  case Nil
  then show ?case by simp
next
  case (Cons line rest)
  show ?case
  proof (cases "re_match_literal ct_header (lower line)")
    case True
    with Cons.prems have "ct_loop data rest = Inr m" by simp
    from Cons.IH [OF this] True show ?thesis by simp
  next
    case False
    let ?tmp = "split TAB (strip line)"
    from Cons.prems False have len: "1 < length ?tmp"
      by (auto simp: getitem_def Let_def split: if_splits)
    with Cons.prems False have "ct_loop (data(?tmp ! 0 \<mapsto> ?tmp ! 1)) rest = Inr m"
      by (auto simp: getitem_def Let_def split: if_splits)
    from Cons.IH [OF this] False show ?thesis by simp
  qed
qed

text \<open>A line without a second column stops the import with the IndexError of \<open>tmp_data[1]\<close>.\<close>

lemma ct_loop_error: "ct_loop data file = Inl e \<Longrightarrow> e = IndexError"
  by (induction "file" arbitrary: data) (auto simp: getitem_def Let_def split: if_splits)

lemma ct_loop_short:
  assumes "line \<in> set file" and "\<not> re_match_literal ct_header (lower line)"
    and "length (split TAB (strip line)) < 2"
  shows "ct_loop data file = Inl IndexError"
  using assms(1)
proof (induction "file" arbitrary: data)
  case Nil
  then show ?case by simp
next
  case (Cons l rest)
  show ?case
  proof (cases "l = line")
    case True
    with assms(2,3) show ?thesis by (simp add: getitem_def Let_def)
  next
    case False
    with Cons.prems have "line \<in> set rest" by simp
    then have "\<And>d. ct_loop d rest = Inl IndexError" by (rule Cons.IH)
    then show ?thesis by (simp add: getitem_def Let_def split: sum.splits)
  qed
qed

lemma collect_lines_eq:
  "collect_lines data f = data @ map rstrip (filter (\<lambda>l. \<not> re_match_literal summary_header l) f)"
  by (induction f arbitrary: data) auto

lemma collect_files_eq:
  "collect_files data fs =
     data @ concat (map (\<lambda>f. map rstrip (filter (\<lambda>l. \<not> re_match_literal summary_header l) f)) fs)"
  by (induction fs arbitrary: data) (auto simp: collect_lines_eq)

lemma rstrip_prefix: "\<exists>t. s = rstrip s @ t"
proof -
  have "rev (takeWhile is_space (rev s) @ dropWhile is_space (rev s)) = s"
    by (simp only: takeWhile_dropWhile_id rev_rev_ident)
  then have "rev (dropWhile is_space (rev s)) @ rev (takeWhile is_space (rev s)) = s"
    by (simp only: rev_append)
  then have "s = rstrip s @ rev (takeWhile is_space (rev s))"
    by (simp only: rstrip_def)
  then show ?thesis ..
qed

text \<open>Dropping trailing whitespace never turns a record into a header.\<close>

lemma re_match_literal_rstrip:
  assumes "re_match_literal p (rstrip s)"
  shows "re_match_literal p s"
proof -
  obtain t where t: "s = rstrip s @ t" using rstrip_prefix by blast
  from assms have eq: "take (length p) (rstrip s) = p" by (simp add: re_match_literal_def)
  then have "length p \<le> length (rstrip s)"
    by (metis length_take min.cobounded2 min.commute)
  then have "take (length p) (rstrip s @ t) = take (length p) (rstrip s)" by simp
  with eq t show ?thesis by (simp add: re_match_literal_def)
qed

section \<open>The claims about \<open>get_total_variants\<close>\<close>

text \<open>
  Claim C1. When \<open>get_total_variants\<close> runs with indels included and returns, the returned
  counts satisfy \<open>total_variants = total_snv + total_indel\<close>; and the processing of any one
  row keeps the equation \<open>counter = counter_snv + counter_indel\<close>.
\<close>

theorem total_variants_is_snv_plus_indel:
  "(get_total_variants file True = Inr r \<longrightarrow> total_variants r = total_snv r + total_indel r)
   \<and> (total_variants st = total_snv st + total_indel st \<and> variants_row True st line = Inr st'
        \<longrightarrow> total_variants st' = total_snv st' + total_indel st')"
proof (intro conjI impI)
  assume "get_total_variants file True = Inr r"
  then have "variants_loop True counters_init file = Inr r"
    by (simp add: get_total_variants_def)
  moreover have "total_variants counters_init = total_snv counters_init + total_indel counters_init"
    by (simp add: counters_init_def)
  ultimately show "total_variants r = total_snv r + total_indel r"
    by (rule variants_loop_consistent [rotated])
next
  assume "total_variants st = total_snv st + total_indel st \<and> variants_row True st line = Inr st'"
  then show "total_variants st' = total_snv st' + total_indel st'"
    by (blast intro: variants_row_consistent)
qed

theorem total_variants_is_snv_plus_indel_witness:
  "get_total_variants example_variants True
     = Inr \<lparr>total_variants = 3, total_n = 1, total_iupac = 0, total_snv = 2, total_indel = 1\<rparr>
   \<and> variants_row True
        \<lparr>total_variants = 2, total_n = 1, total_iupac = 0, total_snv = 2, total_indel = 0\<rparr>
        (tsv_line [''MN908947.3'', ''11287'', ''G'', ''AT'', ''5''])
     = Inr \<lparr>total_variants = 3, total_n = 1, total_iupac = 0, total_snv = 2, total_indel = 1\<rparr>
   \<and> (3::int) = 2 + 1"
proof -
  let ?r = "\<lparr>total_variants = 3, total_n = 1, total_iupac = 0, total_snv = 2, total_indel = 1\<rparr>"
  let ?st = "\<lparr>total_variants = 2, total_n = 1, total_iupac = 0, total_snv = 2, total_indel = 0\<rparr>"
  let ?line = "tsv_line [''MN908947.3'', ''11287'', ''G'', ''AT'', ''5'']"
  have run: "get_total_variants example_variants True = Inr ?r"
    by code_simp
  have row: "variants_row True ?st ?line = Inr ?r"
    by code_simp
  from total_variants_is_snv_plus_indel [of example_variants ?r ?st ?line ?r] run row
  show ?thesis by simp
qed

text \<open>
  Claim C2. A data row that reaches the classification of lines 76 to 79 (every data row
  when indels are included, the rows whose \<open>data[3]\<close> has one character otherwise) adds one
  to \<open>total_n\<close> exactly when ALT contains \<open>N\<close> or \<open>n\<close>, and one to \<open>total_iupac\<close> exactly
  when ALT contains neither but contains one of R, Y, S, W, K, M, B, D, H, V in either case;
  it never adds to both, and adds to neither for an unambiguous ALT. So a run of
  \<open>get_total_variants\<close> that returns has, as \<open>total_n\<close>, the number of N rows of the table
  and, as \<open>total_iupac\<close>, the number of its IUPAC rows, and the two together never exceed
  \<open>total_variants\<close>.
\<close>

theorem get_total_variants_counts_n_else_iupac:
  "(\<not> re_match_literal variants_header line \<and> getitem (split TAB line) 3 = Inr alt
      \<and> (indel \<or> length alt = 1)
      \<longrightarrow> (\<exists>st'. variants_row indel st line = Inr st'
             \<and> total_n st' = total_n st + (if CHR ''N'' \<in> set alt \<or> CHR ''n'' \<in> set alt then 1 else 0)
             \<and> total_iupac st' = total_iupac st +
                  (if CHR ''N'' \<notin> set alt \<and> CHR ''n'' \<notin> set alt
                      \<and> set alt \<inter> set ''RYSWKMBDHVryswkmbdhv'' \<noteq> {} then 1 else 0)
             \<and> (total_n st' = total_n st \<or> total_iupac st' = total_iupac st)))
   \<and> (get_total_variants file indel = Inr r
      \<longrightarrow> total_n r = int (length (filter (n_row indel) file))
        \<and> total_iupac r = int (length (filter (iupac_row indel) file))
        \<and> total_n r + total_iupac r \<le> total_variants r)"
proof (intro conjI impI)
  assume a: "\<not> re_match_literal variants_header line \<and> getitem (split TAB line) 3 = Inr alt
      \<and> (indel \<or> length alt = 1)"
  then have "count_variant indel alt st \<noteq> None"
    by (auto simp: count_variant_def)
  then obtain st1 where st1: "count_variant indel alt st = Some st1"
    by blast
  then have frame: "total_n st1 = total_n st" "total_iupac st1 = total_iupac st"
    by (simp_all add: count_variant_frame)
  have r: "variants_row indel st line = Inr (count_n_iupac alt st1)"
    using a st1 by (simp add: variants_row_data)
  have n: "total_n (count_n_iupac alt st1) =
             total_n st + (if CHR ''N'' \<in> set alt \<or> CHR ''n'' \<in> set alt then 1 else 0)"
    unfolding count_n_iupac_n frame by (rule refl)
  have i: "total_iupac (count_n_iupac alt st1) =
             total_iupac st + (if CHR ''N'' \<notin> set alt \<and> CHR ''n'' \<notin> set alt
                                 \<and> set alt \<inter> set ''RYSWKMBDHVryswkmbdhv'' \<noteq> {} then 1 else 0)"
    unfolding count_n_iupac_iupac frame by (rule refl)
  have b: "total_n (count_n_iupac alt st1) = total_n st
         \<or> total_iupac (count_n_iupac alt st1) = total_iupac st"
    using frame by (simp add: count_n_iupac_def)
  from r n i b
  show "\<exists>st'. variants_row indel st line = Inr st'
             \<and> total_n st' = total_n st + (if CHR ''N'' \<in> set alt \<or> CHR ''n'' \<in> set alt then 1 else 0)
             \<and> total_iupac st' = total_iupac st +
                  (if CHR ''N'' \<notin> set alt \<and> CHR ''n'' \<notin> set alt
                      \<and> set alt \<inter> set ''RYSWKMBDHVryswkmbdhv'' \<noteq> {} then 1 else 0)
             \<and> (total_n st' = total_n st \<or> total_iupac st' = total_iupac st)"
    by blast
next
  assume "get_total_variants file indel = Inr r"
  then have "variants_loop indel counters_init file = Inr r"
    by (simp add: get_total_variants_def)
  from variants_loop_n_iupac [OF this]
  show "total_n r = int (length (filter (n_row indel) file))"
    and "total_iupac r = int (length (filter (iupac_row indel) file))"
    and "total_n r + total_iupac r \<le> total_variants r"
    by (simp_all add: counters_init_def)
qed

theorem get_total_variants_counts_n_else_iupac_witness:
  "(\<exists>st'. variants_row True counters_init (tsv_line [''MN908947.3'', ''8782'', ''C'', ''nR'', ''1'']) = Inr st'
       \<and> total_n st' = 1 \<and> total_iupac st' = 0)
   \<and> (\<exists>st'. variants_row False counters_init (tsv_line [''MN908947.3'', ''9477'', ''T'', ''y'', ''4'']) = Inr st'
       \<and> total_n st' = 0 \<and> total_iupac st' = 1)
   \<and> (\<exists>st'. variants_row False counters_init (tsv_line [''MN908947.3'', ''241'', ''C'', ''A'', ''0'']) = Inr st'
       \<and> total_n st' = 0 \<and> total_iupac st' = 0)
   \<and> get_total_variants example_variants_ambiguous True
       = Inr \<lparr>total_variants = 5, total_n = 2, total_iupac = 1, total_snv = 3, total_indel = 2\<rparr>
   \<and> length (filter (n_row True) example_variants_ambiguous) = 2
   \<and> length (filter (iupac_row True) example_variants_ambiguous) = 1
   \<and> get_total_variants example_variants_ambiguous False
       = Inr \<lparr>total_variants = 3, total_n = 1, total_iupac = 1, total_snv = 3, total_indel = 0\<rparr>
   \<and> length (filter (n_row False) example_variants_ambiguous) = 1
   \<and> length (filter (iupac_row False) example_variants_ambiguous) = 1"
proof -
  let ?l1 = "tsv_line [''MN908947.3'', ''8782'', ''C'', ''nR'', ''1'']"
  let ?l2 = "tsv_line [''MN908947.3'', ''9477'', ''T'', ''y'', ''4'']"
  let ?l3 = "tsv_line [''MN908947.3'', ''241'', ''C'', ''A'', ''0'']"
  let ?rt = "\<lparr>total_variants = 5, total_n = 2, total_iupac = 1, total_snv = 3, total_indel = 2\<rparr>"
  let ?rf = "\<lparr>total_variants = 3, total_n = 1, total_iupac = 1, total_snv = 3, total_indel = 0\<rparr>"
  have h1: "\<not> re_match_literal variants_header ?l1" "getitem (split TAB ?l1) 3 = Inr ''nR''"
    by code_simp+
  have h2: "\<not> re_match_literal variants_header ?l2" "getitem (split TAB ?l2) 3 = Inr ''y''"
    by code_simp+
  have h3: "\<not> re_match_literal variants_header ?l3" "getitem (split TAB ?l3) 3 = Inr ''A''"
    by code_simp+
  have rt: "get_total_variants example_variants_ambiguous True = Inr ?rt"
    by code_simp
  have rf: "get_total_variants example_variants_ambiguous False = Inr ?rf"
    by code_simp
  note t1 = get_total_variants_counts_n_else_iupac
              [of ?l1 "''nR''" True counters_init example_variants_ambiguous ?rt]
  note t2 = get_total_variants_counts_n_else_iupac
              [of ?l2 "''y''" False counters_init example_variants_ambiguous ?rf]
  note t3 = get_total_variants_counts_n_else_iupac
              [of ?l3 "''A''" False counters_init example_variants_ambiguous ?rf]
  have a: "\<exists>st'. variants_row True counters_init ?l1 = Inr st' \<and> total_n st' = 1 \<and> total_iupac st' = 0"
    using t1 [THEN conjunct1] h1 by (auto simp: counters_init_def)
  have b: "\<exists>st'. variants_row False counters_init ?l2 = Inr st' \<and> total_n st' = 0 \<and> total_iupac st' = 1"
    using t2 [THEN conjunct1] h2 by (auto simp: counters_init_def)
  have c: "\<exists>st'. variants_row False counters_init ?l3 = Inr st' \<and> total_n st' = 0 \<and> total_iupac st' = 0"
    using t3 [THEN conjunct1] h3 by (auto simp: counters_init_def)
  have d: "length (filter (n_row True) example_variants_ambiguous) = 2"
    "length (filter (iupac_row True) example_variants_ambiguous) = 1"
    using t1 [THEN conjunct2] rt by simp_all
  have e: "length (filter (n_row False) example_variants_ambiguous) = 1"
    "length (filter (iupac_row False) example_variants_ambiguous) = 1"
    using t2 [THEN conjunct2] rf by simp_all
  from a b c rt d rf e show ?thesis by blast
qed

text \<open>
  Claim C3 is right and the code misses it when ALT is the last column of the table.
  Line 60 splits the line as it was read, where the other three readers strip it first, so
  \<open>data[3]\<close> is then the ALT and the line terminator: two characters for a one-letter ALT.
  With indels excluded the row with ALT \<open>A\<close> is skipped and every counter stays 0, where the
  claim has \<open>total_variants\<close> and \<open>total_snv\<close> both grow; with indels included the same row
  is counted as an indel. (On \<open>data[3]\<close> as the code reads it the claim holds: see
  \<open>variants_row_no_indel\<close> and \<open>variants_loop_no_indel\<close>.)
\<close>

theorem get_total_variants_alt_last_column:
  "getitem (split TAB (example_variants_alt_last ! 1)) 3 = Inr (''A'' @ [NL])
   \<and> get_total_variants example_variants_alt_last False
       = Inr \<lparr>total_variants = 0, total_n = 0, total_iupac = 0, total_snv = 0, total_indel = 0\<rparr>
   \<and> get_total_variants example_variants_alt_last True
       = Inr \<lparr>total_variants = 1, total_n = 0, total_iupac = 0, total_snv = 0, total_indel = 1\<rparr>"
  by code_simp

text \<open>
  Claim C4. If the variant table has a line that is not the header and has fewer than four
  tab-delimited fields, \<open>get_total_variants\<close> fails, and with no other exception than the
  IndexError that \<open>data[3]\<close> raises (the specification's FormatError), whether or not
  indels are included.
\<close>

theorem get_total_variants_short_row_IndexError:
  assumes "line \<in> set file" and "\<not> re_match_literal variants_header line"
    and "length (split TAB line) < 4"
  shows "get_total_variants file indel = Inl IndexError"
  using assms unfolding get_total_variants_def by (rule variants_loop_short)

theorem get_total_variants_short_row_IndexError_witness:
  "get_total_variants example_variants_short False = Inl IndexError
   \<and> get_total_variants example_variants_short True = Inl IndexError"
proof -
  let ?l = "tsv_line [''MN908947.3'', ''3037'', ''C'']"
  have h1: "?l \<in> set example_variants_short"
    by (simp add: example_variants_short_def)
  have h2: "\<not> re_match_literal variants_header ?l"
    by code_simp
  have h3: "length (split TAB ?l) < 4"
    by code_simp
  from get_total_variants_short_row_IndexError [OF h1 h2 h3] show ?thesis by simp
qed

section \<open>The claim about \<open>get_coverage_stats\<close>\<close>

text \<open>
  Claim C5. If the coverage table has no data row (every line is a header, or there is no
  line at all), \<open>get_coverage_stats\<close> fails with the StatisticsError that
  \<open>statistics.mean\<close> raises on an empty list (the specification's EmptyInputError); it
  returns no mean and no median.
\<close>

theorem get_coverage_stats_no_data_StatisticsError:
  assumes "filter (\<lambda>l. \<not> re_match_literal coverage_header l) file = []"
  shows "get_coverage_stats file = Inl StatisticsError"
  using depth_loop_no_data [OF assms, of "[]"]
  by (simp add: get_coverage_stats_def statistics_mean_def)

theorem get_coverage_stats_no_data_StatisticsError_witness:
  "get_coverage_stats example_coverage_header_only = Inl StatisticsError
   \<and> get_coverage_stats [] = Inl StatisticsError"
proof -
  have h: "filter (\<lambda>l. \<not> re_match_literal coverage_header l) example_coverage_header_only = []"
    by code_simp
  from get_coverage_stats_no_data_StatisticsError [OF h]
       get_coverage_stats_no_data_StatisticsError [of "[]"]
  show ?thesis by simp
qed

section \<open>The claims about \<open>get_qc_data\<close>\<close>

text \<open>
  Claim C7. \<open>get_qc_data\<close> fails on a QC file without a data line, and on one whose (last)
  data line has fewer than seven comma-delimited fields. In the first case \<open>data\<close> was never
  assigned and line 30 raises UnboundLocalError; in the second \<open>data[6]\<close> or an earlier index
  raises IndexError. Both stand for the specification's FormatError; the module defines no
  exception class of its own.
\<close>

theorem get_qc_data_no_data_or_short:
  "(filter (\<lambda>l. \<not> re_match_literal ''sample_name'' l) file = []
      \<longrightarrow> get_qc_data file = Inl UnboundLocalError)
   \<and> (filter (\<lambda>l. \<not> re_match_literal ''sample_name'' l) file \<noteq> []
      \<and> length (split CHR '','' (strip (last (filter (\<lambda>l. \<not> re_match_literal ''sample_name'' l) file)))) < 7
      \<longrightarrow> get_qc_data file = Inl IndexError)"
proof (intro conjI impI)
  assume "filter (\<lambda>l. \<not> re_match_literal ''sample_name'' l) file = []"
  then have "qc_loop None file = None"
    by (simp add: qc_loop_last)
  then show "get_qc_data file = Inl UnboundLocalError"
    by (simp add: get_qc_data_def)
next
  let ?ds = "filter (\<lambda>l. \<not> re_match_literal ''sample_name'' l) file"
  assume a: "?ds \<noteq> [] \<and> length (split CHR '','' (strip (last ?ds))) < 7"
  then have "qc_loop None file = Some (split CHR '','' (strip (last ?ds)))"
    by (simp add: qc_loop_last)
  then have "get_qc_data file = qc_project (split CHR '','' (strip (last ?ds)))"
    by (simp add: get_qc_data_def)
  also have "\<dots> = Inl IndexError"
    using a by (simp add: qc_project_short)
  finally show "get_qc_data file = Inl IndexError" .
qed

theorem get_qc_data_no_data_or_short_witness:
  "get_qc_data example_qc_header_only = Inl UnboundLocalError
   \<and> get_qc_data example_qc_short = Inl IndexError"
proof -
  have h1: "filter (\<lambda>l. \<not> re_match_literal ''sample_name'' l) example_qc_header_only = []"
    by code_simp
  have h2: "filter (\<lambda>l. \<not> re_match_literal ''sample_name'' l) example_qc_short
              = [csv_line [''s1'', ''0.50'', ''99.50'']]"
    by code_simp
  have h3: "length (split CHR '','' (strip (csv_line [''s1'', ''0.50'', ''99.50'']))) < 7"
    by code_simp
  from get_qc_data_no_data_or_short [of example_qc_header_only]
       get_qc_data_no_data_or_short [of example_qc_short] h1 h2 h3
  show ?thesis by simp
qed

text \<open>
  Claim C10, as stated, fails: a QC file with two data lines whose last data line has three
  fields returns nothing; \<open>get_qc_data\<close> raises the IndexError of that last line.
\<close>

theorem get_qc_data_last_line_counterexample:
  "length (filter (\<lambda>l. \<not> re_match_literal ''sample_name'' l) example_qc_last_short) = 2
   \<and> get_qc_data example_qc_last_short = Inl IndexError"
  by code_simp

text \<open>
  Claim C10, amended. When the QC file has data lines, the outcome of \<open>get_qc_data\<close> is that
  of the last data line alone: it is the projection of the fields of that line, the same as
  for the file made of that one line, and when that line has at least seven fields it is
  the record of its fields 0, 1, 2 and 6. The data lines before it are overwritten and
  raise nothing, whatever they hold.
\<close>

theorem get_qc_data_last_line_wins:
  assumes "ds = filter (\<lambda>l. \<not> re_match_literal ''sample_name'' l) file" and "ds \<noteq> []"
    and "data = split CHR '','' (strip (last ds))"
  shows "get_qc_data file = qc_project data
       \<and> get_qc_data file = get_qc_data [last ds]
       \<and> (7 \<le> length data \<longrightarrow>
            get_qc_data file = Inr \<lparr>sample_name = data ! 0, pct_n_bases = data ! 1,
                                    pct_covered_bases = data ! 2, qc_pass = data ! 6\<rparr>)"
proof -
  have "last ds \<in> set ds" using assms(2) by simp
  then have nh: "\<not> re_match_literal ''sample_name'' (last ds)"
    unfolding assms(1) by simp
  have a: "get_qc_data file = qc_project data"
    using assms by (simp add: get_qc_data_def qc_loop_last)
  have b: "get_qc_data [last ds] = qc_project data"
    using nh assms(3) by (simp add: get_qc_data_def)
  from a b show ?thesis by (simp add: qc_project_long)
qed

theorem get_qc_data_last_line_wins_witness:
  "get_qc_data example_qc_two
     = Inr \<lparr>sample_name = ''s2'', pct_n_bases = ''7.25'', pct_covered_bases = ''92.75'', qc_pass = ''FALSE''\<rparr>
   \<and> get_qc_data example_qc_two
     = get_qc_data [csv_line [''s2'', ''7.25'', ''92.75'', ''14000'', ''s2.fa'', ''s2.bam'', ''FALSE'']]"
proof -
  let ?l1 = "csv_line [''s1'', ''0.50'', ''99.50'']"
  let ?l2 = "csv_line [''s2'', ''7.25'', ''92.75'', ''14000'', ''s2.fa'', ''s2.bam'', ''FALSE'']"
  let ?data = "[''s2'', ''7.25'', ''92.75'', ''14000'', ''s2.fa'', ''s2.bam'', ''FALSE'']"
  have h1: "[?l1, ?l2] = filter (\<lambda>l. \<not> re_match_literal ''sample_name'' l) example_qc_two"
    by code_simp
  have h2: "[?l1, ?l2] \<noteq> []"
    by simp
  have h3: "?data = split CHR '','' (strip (last [?l1, ?l2]))"
    by code_simp
  note t = get_qc_data_last_line_wins [OF h1 h2 h3]
  have a: "get_qc_data example_qc_two
     = Inr \<lparr>sample_name = ''s2'', pct_n_bases = ''7.25'', pct_covered_bases = ''92.75'', qc_pass = ''FALSE''\<rparr>"
    using t [THEN conjunct2, THEN conjunct2] by simp
  have b: "get_qc_data example_qc_two = get_qc_data [?l2]"
    using t [THEN conjunct2, THEN conjunct1] by simp
  from a b show ?thesis by (rule conjI)
qed

section \<open>The claim about \<open>import_ct_data\<close>\<close>

text \<open>
  Claim C8, as stated, fails: a metadata table with a repeated sample name makes
  \<open>import_ct_data\<close> fail when one of its lines (here the empty last line) has no second
  column.
\<close>

theorem import_ct_data_duplicates_counterexample:
  "split TAB (strip (example_meta_blank ! 1)) = [''s1'', ''20.5'']
   \<and> split TAB (strip (example_meta_blank ! 2)) = [''s1'', ''30.1'']
   \<and> import_ct_data example_meta_blank = Inl IndexError"
proof -
  have d: "split TAB (strip (example_meta_blank ! 1)) = [''s1'', ''20.5'']"
    "split TAB (strip (example_meta_blank ! 2)) = [''s1'', ''30.1'']"
    by code_simp+
  have h1: "[NL] \<in> set example_meta_blank"
    by (simp add: example_meta_blank_def)
  have h2: "\<not> re_match_literal ct_header (lower [NL])"
    by code_simp
  have h3: "length (split TAB (strip [NL])) < 2"
    by code_simp
  from ct_loop_short [OF h1 h2 h3] have "import_ct_data example_meta_blank = Inl IndexError"
    by (simp add: import_ct_data_def)
  with d show ?thesis by blast
qed

text \<open>
  Claim C8, amended. If every line of the metadata table that is not a header has at least
  two tab-delimited fields (after the surrounding whitespace is dropped), \<open>import_ct_data\<close>
  returns a mapping, and a sample name that is column 0 of some data line, of one or of
  several, is bound to column 1 of the last such line.
\<close>

theorem import_ct_data_last_duplicate_wins:
  assumes "\<forall>line\<in>set file. \<not> re_match_literal ct_header (lower line) \<longrightarrow> 2 \<le> length (split TAB (strip line))"
    and "dl = filter (\<lambda>l. \<not> re_match_literal ct_header (lower l) \<and> split TAB (strip l) ! 0 = k) file"
    and "dl \<noteq> []"
  shows "\<exists>m. import_ct_data file = Inr m \<and> m k = Some (split TAB (strip (last dl)) ! 1)"
proof -
  from ct_loop_ok [OF assms(1)] obtain m where m: "ct_loop Map.empty file = Inr m"
    by blast
  from ct_loop_lookup [OF m, of k] assms(2,3)
  have "m k = Some (split TAB (strip (last dl)) ! 1)" by simp
  with m show ?thesis by (simp add: import_ct_data_def)
qed

theorem import_ct_data_last_duplicate_wins_witness:
  "\<exists>m. import_ct_data example_meta_twice = Inr m \<and> m ''s1'' = Some ''30.1''"
proof -
  let ?a = "tsv_line [''s1'', ''20.5'']"
  let ?b = "tsv_line [''s1'', ''30.1'']"
  have h1: "\<forall>line\<in>set example_meta_twice.
              \<not> re_match_literal ct_header (lower line) \<longrightarrow> 2 \<le> length (split TAB (strip line))"
    by code_simp
  have h2: "[?a, ?b] = filter (\<lambda>l. \<not> re_match_literal ct_header (lower l) \<and> split TAB (strip l) ! 0 = ''s1'')
                         example_meta_twice"
    by code_simp
  have h3: "[?a, ?b] \<noteq> []"
    by simp
  have v: "split TAB (strip (last [?a, ?b])) ! 1 = ''30.1''"
    by code_simp
  from import_ct_data_last_duplicate_wins [OF h1 h2 h3] v show ?thesis by simp
qed

section \<open>The claim about \<open>create_qc_summary_line\<close>\<close>

lemma import_ct_data_example_meta_other:
  "import_ct_data example_meta_other = Inr [''s2'' \<mapsto> ''20.5'']"
proof -
  have h: "re_match_literal ct_header (lower (tsv_line [''sample'', ''ct'']))"
    by code_simp
  have d: "\<not> re_match_literal ct_header (lower (tsv_line [''s2'', ''20.5'']))"
    by code_simp
  have s: "split TAB (strip (tsv_line [''s2'', ''20.5''])) = [''s2'', ''20.5'']"
    by code_simp
  show ?thesis
    by (simp add: import_ct_data_def example_meta_other_def h d s getitem_def)
qed

text \<open>
  Claim C6, as stated, fails: the sample name \<open>s1\<close> of the QC file is absent from the
  mapping built from the metadata table, and \<open>create_qc_summary_line\<close> fails with the
  StatisticsError of the empty coverage table, which is read before the lookup.
\<close>

theorem create_qc_summary_line_missing_sample_counterexample:
  "get_qc_data example_qc
     = Inr \<lparr>sample_name = ''s1'', pct_n_bases = ''0.50'', pct_covered_bases = ''99.50'', qc_pass = ''TRUE''\<rparr>
   \<and> import_ct_data example_meta_other = Inr [''s2'' \<mapsto> ''20.5'']
   \<and> [''s2'' \<mapsto> ''20.5''] ''s1'' = None
   \<and> create_qc_summary_line example_variants example_qc example_coverage_header_only
        example_meta_other True = Inl StatisticsError"
proof -
  have a: "get_qc_data example_qc
     = Inr \<lparr>sample_name = ''s1'', pct_n_bases = ''0.50'', pct_covered_bases = ''99.50'', qc_pass = ''TRUE''\<rparr>"
    by code_simp
  have b: "[''s2'' \<mapsto> ''20.5''] ''s1'' = None"
    by simp
  have c: "create_qc_summary_line example_variants example_qc example_coverage_header_only
        example_meta_other True = Inl StatisticsError"
    by code_simp
  from a import_ct_data_example_meta_other b c show ?thesis by blast
qed

text \<open>
  Claim C6, amended. Whenever the sample name read from the QC file is absent from the
  mapping built from the metadata table, \<open>create_qc_summary_line\<close> fails and returns no
  summary. The readers run before the lookup, so the error is that of \<open>get_total_variants\<close>
  when it fails, else that of \<open>get_coverage_stats\<close> when it fails, and the KeyError of the
  lookup (the specification's MissingKeyError) when both return.
\<close>

theorem create_qc_summary_line_missing_sample:
  assumes "get_qc_data qc_file = Inr q" and "import_ct_data meta_file = Inr meta_data"
    and "meta_data (sample_name q) = None"
  shows "(get_total_variants var_file indel = Inl e
            \<longrightarrow> create_qc_summary_line var_file qc_file cov_file meta_file indel = Inl e)
       \<and> (get_total_variants var_file indel = Inr v \<and> get_coverage_stats cov_file = Inl e
            \<longrightarrow> create_qc_summary_line var_file qc_file cov_file meta_file indel = Inl e)
       \<and> (get_total_variants var_file indel = Inr v \<and> get_coverage_stats cov_file = Inr c
            \<longrightarrow> create_qc_summary_line var_file qc_file cov_file meta_file indel = Inl KeyError)
       \<and> (\<exists>e'. create_qc_summary_line var_file qc_file cov_file meta_file indel = Inl e')"
proof (intro conjI impI)
  assume "get_total_variants var_file indel = Inl e"
  then show "create_qc_summary_line var_file qc_file cov_file meta_file indel = Inl e"
    by (simp add: create_qc_summary_line_def)
next
  assume "get_total_variants var_file indel = Inr v \<and> get_coverage_stats cov_file = Inl e"
  with assms(1) show "create_qc_summary_line var_file qc_file cov_file meta_file indel = Inl e"
    by (simp add: create_qc_summary_line_def)
next
  assume "get_total_variants var_file indel = Inr v \<and> get_coverage_stats cov_file = Inr c"
  with assms show "create_qc_summary_line var_file qc_file cov_file meta_file indel = Inl KeyError"
    by (simp add: create_qc_summary_line_def)
next
  from assms show "\<exists>e'. create_qc_summary_line var_file qc_file cov_file meta_file indel = Inl e'"
    by (auto simp: create_qc_summary_line_def split: sum.splits)
qed

theorem create_qc_summary_line_missing_sample_witness:
  "create_qc_summary_line example_variants_short example_qc example_coverage example_meta_other True
     = Inl IndexError
   \<and> create_qc_summary_line example_variants example_qc example_coverage_header_only
       example_meta_other True = Inl StatisticsError
   \<and> create_qc_summary_line example_variants example_qc example_coverage example_meta_other True
     = Inl KeyError"
proof -
  let ?q = "\<lparr>sample_name = ''s1'', pct_n_bases = ''0.50'', pct_covered_bases = ''99.50'', qc_pass = ''TRUE''\<rparr>"
  let ?v = "\<lparr>total_variants = 3, total_n = 1, total_iupac = 0, total_snv = 2, total_indel = 1\<rparr>"
  let ?c = "\<lparr>mean = PyFloat (5 / 2), median = PyFloat (5 / 2)\<rparr>"
  have h1: "get_qc_data example_qc = Inr ?q"
    by code_simp
  have h3: "[''s2'' \<mapsto> ''20.5''] (sample_name ?q) = None"
    by simp
  have vs: "get_total_variants example_variants_short True = Inl IndexError"
    by code_simp
  have v: "get_total_variants example_variants True = Inr ?v"
    by code_simp
  have ce: "get_coverage_stats example_coverage_header_only = Inl StatisticsError"
    by code_simp
  have c: "get_coverage_stats example_coverage = Inr ?c"
    by code_simp
  note t = create_qc_summary_line_missing_sample [OF h1 import_ct_data_example_meta_other h3]
  have a: "create_qc_summary_line example_variants_short example_qc example_coverage
             example_meta_other True = Inl IndexError"
    using t [where var_file = example_variants_short and indel = True and e = IndexError
               and cov_file = example_coverage, THEN conjunct1] vs
    by simp
  have b: "create_qc_summary_line example_variants example_qc example_coverage_header_only
             example_meta_other True = Inl StatisticsError"
    using t [where var_file = example_variants and indel = True and v = ?v and e = StatisticsError
               and cov_file = example_coverage_header_only, THEN conjunct2, THEN conjunct1] v ce
    by simp
  have d: "create_qc_summary_line example_variants example_qc example_coverage
             example_meta_other True = Inl KeyError"
    using t [where var_file = example_variants and indel = True and v = ?v and c = ?c
               and cov_file = example_coverage, THEN conjunct2, THEN conjunct2, THEN conjunct1] v c
    by simp
  from a b d show ?thesis by blast
qed

section \<open>The claim about \<open>collect_qc_summary_data\<close>\<close>

text \<open>
  Claim C9. For two summary files, each with one header line and two other lines,
  \<open>collect_qc_summary_data\<close> returns exactly four lines: the two data lines of the first
  file in their order, then the two of the second in theirs, each without its trailing
  whitespace; no returned line is a header.
\<close>

theorem collect_two_files:
  assumes "length (filter (re_match_literal summary_header) f1) = 1"
    and "filter (\<lambda>l. \<not> re_match_literal summary_header l) f1 = [a1, a2]"
    and "length (filter (re_match_literal summary_header) f2) = 1"
    and "filter (\<lambda>l. \<not> re_match_literal summary_header l) f2 = [b1, b2]"
  shows "collect_qc_summary_data [f1, f2] = [rstrip a1, rstrip a2, rstrip b1, rstrip b2]
       \<and> length (collect_qc_summary_data [f1, f2]) = 4
       \<and> list_all (\<lambda>l. \<not> re_match_literal summary_header l) (collect_qc_summary_data [f1, f2])"
proof -
  have eq: "collect_qc_summary_data [f1, f2] = [rstrip a1, rstrip a2, rstrip b1, rstrip b2]"
    by (simp add: collect_qc_summary_data_def collect_files_eq assms(2,4))
  have "a1 \<in> set (filter (\<lambda>l. \<not> re_match_literal summary_header l) f1)"
    "a2 \<in> set (filter (\<lambda>l. \<not> re_match_literal summary_header l) f1)"
    "b1 \<in> set (filter (\<lambda>l. \<not> re_match_literal summary_header l) f2)"
    "b2 \<in> set (filter (\<lambda>l. \<not> re_match_literal summary_header l) f2)"
    by (simp_all add: assms(2,4))
  then have "\<not> re_match_literal summary_header a1" "\<not> re_match_literal summary_header a2"
    "\<not> re_match_literal summary_header b1" "\<not> re_match_literal summary_header b2"
    by simp_all
  then have "\<not> re_match_literal summary_header (rstrip a1)" "\<not> re_match_literal summary_header (rstrip a2)"
    "\<not> re_match_literal summary_header (rstrip b1)" "\<not> re_match_literal summary_header (rstrip b2)"
    by (blast dest: re_match_literal_rstrip)+
  with eq show ?thesis by simp
qed

theorem collect_two_files_witness:
  "collect_qc_summary_data [example_summary_a, example_summary_b]
     = [rstrip (example_summary_a ! 1), rstrip (example_summary_a ! 2),
        rstrip (example_summary_b ! 1), rstrip (example_summary_b ! 2)]
   \<and> rstrip (example_summary_a ! 1)
     = join [TAB] [''s1'', ''0.50'', ''99.50'', ''3'', ''2'', ''1'', ''1'', ''0'', ''2.5'', ''2.5'', ''20.5'', ''TRUE'']
   \<and> length (collect_qc_summary_data [example_summary_a, example_summary_b]) = 4"
proof -
  have h1: "length (filter (re_match_literal summary_header) example_summary_a) = 1"
    by code_simp
  have h2: "filter (\<lambda>l. \<not> re_match_literal summary_header l) example_summary_a
              = [example_summary_a ! 1, example_summary_a ! 2]"
    by code_simp
  have h3: "length (filter (re_match_literal summary_header) example_summary_b) = 1"
    by code_simp
  have h4: "filter (\<lambda>l. \<not> re_match_literal summary_header l) example_summary_b
              = [example_summary_b ! 1, example_summary_b ! 2]"
    by code_simp
  have r: "rstrip (example_summary_a ! 1)
     = join [TAB] [''s1'', ''0.50'', ''99.50'', ''3'', ''2'', ''1'', ''1'', ''0'', ''2.5'', ''2.5'', ''20.5'', ''TRUE'']"
    by code_simp
  from collect_two_files [OF h1 h2 h3 h4] r show ?thesis by blast
qed

end
